theory Spec2Isabelle
  imports Main "HOL-Library.Word" "HOL-Library.Sublist" "HOL-Library.Monad_Syntax"
begin

unbundle bit_operations_syntax

chapter \<open>The NX-GZIP hardware interface (nxu.h) and the CUDA result check (cudaCheck.h)\<close>

section \<open>Machine types and C expression values\<close>

type_synonym u8 = "8 word"
type_synonym u32 = "32 word"
type_synonym u64 = "64 word"

text \<open>
  A relational or logical operator of C yields the \<^verbatim>\<open>int\<close> 1 or 0; \<^verbatim>\<open>!x\<close> is
  \<^verbatim>\<open>x == 0\<close>. A C value counts as true when it is not 0.
\<close>

definition c_truth :: "bool \<Rightarrow> u32" where
  "c_truth b = (if b then 1 else 0)"

definition c_lnot :: "u32 \<Rightarrow> u32" where
  "c_lnot x = c_truth (x = 0)"

text \<open>
  Shifts of a 32-bit \<^verbatim>\<open>unsigned\<close> operand. C defines them only for a count in
  \<open>[0, 31]\<close>; any other count is undefined behaviour, the value \<open>None\<close> here. Within
  the range a left shift drops the bits moved out at the top.
\<close>

definition shl32 :: "u32 \<Rightarrow> int \<Rightarrow> u32 option" where
  "shl32 x n = (if 0 \<le> n \<and> n < 32 then Some (push_bit (nat n) x) else None)"

definition shr32 :: "u32 \<Rightarrow> int \<Rightarrow> u32 option" where
  "shr32 x n = (if 0 \<le> n \<and> n < 32 then Some (drop_bit (nat n) x) else None)"

section \<open>Byte order (endian.h, used by every register accessor)\<close>

datatype endian = LittleEndian | BigEndian

text \<open>The byte reversals behind \<^verbatim>\<open>htobe32\<close>, \<^verbatim>\<open>be32toh\<close>, \<^verbatim>\<open>htobe64\<close> and \<^verbatim>\<open>be64toh\<close>.\<close>

definition bswap_32 :: "u32 \<Rightarrow> u32" where
  "bswap_32 x =
     drop_bit 24 (x AND 0xff000000) OR drop_bit 8 (x AND 0x00ff0000) OR
     push_bit 8 (x AND 0x0000ff00) OR push_bit 24 (x AND 0x000000ff)"

definition bswap_64 :: "u64 \<Rightarrow> u64" where
  "bswap_64 x =
     drop_bit 56 (x AND 0xff00000000000000) OR drop_bit 40 (x AND 0x00ff000000000000) OR
     drop_bit 24 (x AND 0x0000ff0000000000) OR drop_bit 8 (x AND 0x000000ff00000000) OR
     push_bit 8 (x AND 0x00000000ff000000) OR push_bit 24 (x AND 0x0000000000ff0000) OR
     push_bit 40 (x AND 0x000000000000ff00) OR push_bit 56 (x AND 0x00000000000000ff)"

text \<open>
  On a big-endian host the four conversions are the identity, on a little-endian host
  the byte reversal. The host byte order is the first argument of every definition
  that depends on it.
\<close>

definition htobe32 :: "endian \<Rightarrow> u32 \<Rightarrow> u32" where
  "htobe32 h x = (case h of BigEndian \<Rightarrow> x | LittleEndian \<Rightarrow> bswap_32 x)"

definition be32toh :: "endian \<Rightarrow> u32 \<Rightarrow> u32" where
  "be32toh h x = (case h of BigEndian \<Rightarrow> x | LittleEndian \<Rightarrow> bswap_32 x)"

definition htobe64 :: "endian \<Rightarrow> u64 \<Rightarrow> u64" where
  "htobe64 h x = (case h of BigEndian \<Rightarrow> x | LittleEndian \<Rightarrow> bswap_64 x)"

definition be64toh :: "endian \<Rightarrow> u64 \<Rightarrow> u64" where
  "be64toh h x = (case h of BigEndian \<Rightarrow> x | LittleEndian \<Rightarrow> bswap_64 x)"

subsection \<open>A register in memory\<close>

text \<open>
  A 32-bit register occupies four bytes, a 64-bit register eight, listed here by
  increasing address. \<open>store32 h x\<close> is the memory image the host leaves when it
  assigns the \<^verbatim>\<open>uint32_t\<close> value \<open>x\<close> to the struct member, \<open>load32 h m\<close> the value the
  host reads from the image \<open>m\<close>.
\<close>

type_synonym bytes4 = "u8 \<times> u8 \<times> u8 \<times> u8"
type_synonym bytes8 = "u8 \<times> u8 \<times> u8 \<times> u8 \<times> u8 \<times> u8 \<times> u8 \<times> u8"

definition byte32 :: "nat \<Rightarrow> u32 \<Rightarrow> u8" where
  "byte32 k x = ucast (drop_bit (8 * k) x)"

definition byte64 :: "nat \<Rightarrow> u64 \<Rightarrow> u8" where
  "byte64 k x = ucast (drop_bit (8 * k) x)"

definition be_bytes32 :: "u32 \<Rightarrow> bytes4" where
  "be_bytes32 x = (byte32 3 x, byte32 2 x, byte32 1 x, byte32 0 x)"

definition le_bytes32 :: "u32 \<Rightarrow> bytes4" where
  "le_bytes32 x = (byte32 0 x, byte32 1 x, byte32 2 x, byte32 3 x)"

definition be_bytes64 :: "u64 \<Rightarrow> bytes8" where
  "be_bytes64 x =
     (byte64 7 x, byte64 6 x, byte64 5 x, byte64 4 x,
      byte64 3 x, byte64 2 x, byte64 1 x, byte64 0 x)"

definition le_bytes64 :: "u64 \<Rightarrow> bytes8" where
  "le_bytes64 x =
     (byte64 0 x, byte64 1 x, byte64 2 x, byte64 3 x,
      byte64 4 x, byte64 5 x, byte64 6 x, byte64 7 x)"

definition be_word32 :: "bytes4 \<Rightarrow> u32" where
  "be_word32 m = (case m of (a, b, c, d) \<Rightarrow>
     push_bit 24 (ucast a) OR push_bit 16 (ucast b) OR push_bit 8 (ucast c) OR ucast d)"

definition le_word32 :: "bytes4 \<Rightarrow> u32" where
  "le_word32 m = (case m of (a, b, c, d) \<Rightarrow>
     push_bit 24 (ucast d) OR push_bit 16 (ucast c) OR push_bit 8 (ucast b) OR ucast a)"

definition store32 :: "endian \<Rightarrow> u32 \<Rightarrow> bytes4" where
  "store32 h x = (case h of BigEndian \<Rightarrow> be_bytes32 x | LittleEndian \<Rightarrow> le_bytes32 x)"

definition load32 :: "endian \<Rightarrow> bytes4 \<Rightarrow> u32" where
  "load32 h m = (case h of BigEndian \<Rightarrow> be_word32 m | LittleEndian \<Rightarrow> le_word32 m)"

definition store64 :: "endian \<Rightarrow> u64 \<Rightarrow> bytes8" where
  "store64 h x = (case h of BigEndian \<Rightarrow> be_bytes64 x | LittleEndian \<Rightarrow> le_bytes64 x)"

section \<open>Register access macros of nxu.h\<close>

text \<open>\<^verbatim>\<open>#define size_mask(x) ((1U<<(x))-1)\<close>\<close>

definition size_mask :: "int \<Rightarrow> u32 option" where
  "size_mask x = map_option (\<lambda>y. y - 1) (shl32 1 x)"

text \<open>
  A register field \<^verbatim>\<open>REG\<close> is declared by two macros, \<^verbatim>\<open>REG_mask\<close>, always
  \<^verbatim>\<open>size_mask(w)\<close> for the field width \<open>w\<close>, and \<^verbatim>\<open>REG_offset\<close>. The accessors take
  the stored value of the struct member (\<^verbatim>\<open>ST.REG\<close>, as the host reads it), the offset
  and the width; the \<^verbatim>\<open>put\<close> forms return the value assigned to the member.

  \<^verbatim>\<open>getnn(ST, REG) = (be32toh(ST.REG) >> (31-REG_offset)) & REG_mask\<close>
\<close>

definition getnn :: "endian \<Rightarrow> u32 \<Rightarrow> int \<Rightarrow> int \<Rightarrow> u32 option" where
  "getnn h reg REG_offset REG_width =
     do { m \<leftarrow> size_mask REG_width;
          s \<leftarrow> shr32 (be32toh h reg) (31 - REG_offset);
          Some (s AND m) }"

definition getpnn :: "endian \<Rightarrow> u32 \<Rightarrow> int \<Rightarrow> int \<Rightarrow> u32 option" where
  "getpnn h reg REG_offset REG_width =
     do { m \<leftarrow> size_mask REG_width;
          s \<leftarrow> shr32 (be32toh h reg) (31 - REG_offset);
          Some (s AND m) }"

definition get32 :: "endian \<Rightarrow> u32 \<Rightarrow> u32" where
  "get32 h reg = be32toh h reg"

definition getp32 :: "endian \<Rightarrow> u32 \<Rightarrow> u32" where
  "getp32 h reg = be32toh h reg"

definition get64 :: "endian \<Rightarrow> u64 \<Rightarrow> u64" where
  "get64 h reg = be64toh h reg"

definition getp64 :: "endian \<Rightarrow> u64 \<Rightarrow> u64" where
  "getp64 h reg = be64toh h reg"

text \<open>\<^verbatim>\<open>unget32(ST, REG) = get32(ST, REG) & ~((REG_mask) << (31-REG_offset))\<close>\<close>

definition unget32 :: "endian \<Rightarrow> u32 \<Rightarrow> int \<Rightarrow> int \<Rightarrow> u32 option" where
  "unget32 h reg REG_offset REG_width =
     do { m \<leftarrow> size_mask REG_width;
          sm \<leftarrow> shl32 m (31 - REG_offset);
          Some (get32 h reg AND NOT sm) }"

definition ungetp32 :: "endian \<Rightarrow> u32 \<Rightarrow> int \<Rightarrow> int \<Rightarrow> u32 option" where
  "ungetp32 h reg REG_offset REG_width =
     do { m \<leftarrow> size_mask REG_width;
          sm \<leftarrow> shl32 m (31 - REG_offset);
          Some (getp32 h reg AND NOT sm) }"

text \<open>
  \<^verbatim>\<open>putnn(ST, REG, X) =
    (ST.REG = htobe32(unget32(ST, REG) | (((X) & REG_mask) << (31-REG_offset))))\<close>
\<close>

definition putnn :: "endian \<Rightarrow> u32 \<Rightarrow> int \<Rightarrow> int \<Rightarrow> u32 \<Rightarrow> u32 option" where
  "putnn h reg REG_offset REG_width X =
     do { u \<leftarrow> unget32 h reg REG_offset REG_width;
          m \<leftarrow> size_mask REG_width;
          f \<leftarrow> shl32 (X AND m) (31 - REG_offset);
          Some (htobe32 h (u OR f)) }"

definition putpnn :: "endian \<Rightarrow> u32 \<Rightarrow> int \<Rightarrow> int \<Rightarrow> u32 \<Rightarrow> u32 option" where
  "putpnn h reg REG_offset REG_width X =
     do { u \<leftarrow> ungetp32 h reg REG_offset REG_width;
          m \<leftarrow> size_mask REG_width;
          f \<leftarrow> shl32 (X AND m) (31 - REG_offset);
          Some (htobe32 h (u OR f)) }"

definition put32 :: "endian \<Rightarrow> u32 \<Rightarrow> u32" where
  "put32 h X = htobe32 h X"

definition putp32 :: "endian \<Rightarrow> u32 \<Rightarrow> u32" where
  "putp32 h X = htobe32 h X"

definition put64 :: "endian \<Rightarrow> u64 \<Rightarrow> u64" where
  "put64 h X = htobe64 h X"

definition putp64 :: "endian \<Rightarrow> u64 \<Rightarrow> u64" where
  "putp64 h X = htobe64 h X"

text \<open>
  The fields the header declares for \<^verbatim>\<open>getnn\<close> and \<^verbatim>\<open>putnn\<close>, as
  (name, \<^verbatim>\<open>REG_offset\<close>, width of \<^verbatim>\<open>REG_mask\<close>).
\<close>

definition nx_fields :: "(string \<times> int \<times> int) list" where
  "nx_fields =
     [(''dde_count'', 23, 8),
      (''csb_v'', 0, 1), (''csb_f'', 6, 1), (''csb_cs'', 15, 8), (''csb_cc'', 23, 8),
      (''csb_ce'', 31, 8),
      (''ccb_cm'', 31, 3),
      (''vas_buf_num'', 5, 6), (''send_wc_id'', 31, 16), (''recv_wc_id'', 31, 16),
      (''vas_invalid'', 31, 1),
      (''nxsf_t'', 23, 1), (''nxsf_fs'', 31, 8),
      (''in_histlen'', 11, 12), (''in_dhtlen'', 31, 12), (''in_subc'', 31, 3),
      (''in_sfbt'', 15, 4), (''in_rembytecnt'', 31, 16),
      (''out_tebc'', 15, 3), (''out_subc'', 31, 16), (''out_sfbt'', 15, 4),
      (''out_rembytecnt'', 31, 16), (''out_dhtlen'', 31, 12),
      (''gzip_fc'', 31, 8), (''crb_c'', 28, 1), (''crb_at'', 30, 1)]"

text \<open>
  The bit positions of a word, counted from the least significant bit, that a field
  with the given offset and width covers: its lowest bit is bit \<open>31 - REG_offset\<close>.
\<close>

definition field_low :: "int \<Rightarrow> nat" where
  "field_low REG_offset = nat (31 - REG_offset)"

definition in_field :: "int \<Rightarrow> int \<Rightarrow> nat \<Rightarrow> bool" where
  "in_field REG_offset REG_width k =
     (field_low REG_offset \<le> k \<and> k < field_low REG_offset + nat REG_width)"

text \<open>The positions, in increasing order, where \<open>old\<close> has a 1 and \<open>new\<close> a 0.\<close>

definition cleared_bits :: "u32 \<Rightarrow> u32 \<Rightarrow> nat list" where
  "cleared_bits old new = filter (\<lambda>k. bit old k \<and> \<not> bit new k) [0..<32]"

section \<open>Completion extension\<close>

definition CSB_CE_PARTIAL :: u32 where "CSB_CE_PARTIAL = 0x4"
definition CSB_CE_TERMINATE :: u32 where "CSB_CE_TERMINATE = 0x2"
definition CSB_CE_TPBC_VALID :: u32 where "CSB_CE_TPBC_VALID = 0x1"

definition csb_ce_termination :: "u32 \<Rightarrow> u32" where
  "csb_ce_termination X = c_lnot (c_lnot (X AND CSB_CE_TERMINATE))"

definition csb_ce_check_completion :: "u32 \<Rightarrow> u32" where
  "csb_ce_check_completion X = c_lnot (csb_ce_termination X)"

definition csb_ce_partial_completion :: "u32 \<Rightarrow> u32" where
  "csb_ce_partial_completion X = c_lnot (c_lnot (X AND CSB_CE_PARTIAL))"

definition csb_ce_full_completion :: "u32 \<Rightarrow> u32" where
  "csb_ce_full_completion X = c_lnot (csb_ce_partial_completion X)"

definition csb_ce_tpbc_valid :: "u32 \<Rightarrow> u32" where
  "csb_ce_tpbc_valid X = c_lnot (c_lnot (X AND CSB_CE_TPBC_VALID))"

definition csb_ce_default_err :: "u32 \<Rightarrow> u32" where
  "csb_ce_default_err X = csb_ce_termination X"

definition csb_ce_cc3_partial :: "u32 \<Rightarrow> u32" where
  "csb_ce_cc3_partial X = csb_ce_partial_completion X"

text \<open>
  \<^verbatim>\<open>#define csb_ce_cc64(X) ((X)&(CSB_CE_PARTIAL | CSB_CE_TERMINATE) == 0)\<close>

  In C \<^verbatim>\<open>==\<close> binds tighter than \<^verbatim>\<open>&\<close>, so the expansion is parsed as
  \<^verbatim>\<open>(X) & ((CSB_CE_PARTIAL | CSB_CE_TERMINATE) == 0)\<close>.
\<close>

definition csb_ce_cc64 :: "u32 \<Rightarrow> u32" where
  "csb_ce_cc64 X = X AND c_truth ((CSB_CE_PARTIAL OR CSB_CE_TERMINATE) = 0)"

text \<open>
  The test the comment next to the macro describes (completion code 64: neither
  partial nor terminated), for comparison with the macro.
\<close>

definition cc64_flags_clear :: "u32 \<Rightarrow> u32" where
  "cc64_flags_clear X = c_truth ((X AND (CSB_CE_PARTIAL OR CSB_CE_TERMINATE)) = 0)"

section \<open>Function codes\<close>

definition GZIP_FC_LIMIT_MASK :: u32 where "GZIP_FC_LIMIT_MASK = 0x01"
definition GZIP_FC_COMPRESS_FHT :: u32 where "GZIP_FC_COMPRESS_FHT = 0x00"
definition GZIP_FC_COMPRESS_DHT :: u32 where "GZIP_FC_COMPRESS_DHT = 0x02"
definition GZIP_FC_COMPRESS_FHT_COUNT :: u32 where "GZIP_FC_COMPRESS_FHT_COUNT = 0x04"
definition GZIP_FC_COMPRESS_DHT_COUNT :: u32 where "GZIP_FC_COMPRESS_DHT_COUNT = 0x06"
definition GZIP_FC_COMPRESS_RESUME_FHT :: u32 where "GZIP_FC_COMPRESS_RESUME_FHT = 0x08"
definition GZIP_FC_COMPRESS_RESUME_DHT :: u32 where "GZIP_FC_COMPRESS_RESUME_DHT = 0x0a"
definition GZIP_FC_COMPRESS_RESUME_FHT_COUNT :: u32 where
  "GZIP_FC_COMPRESS_RESUME_FHT_COUNT = 0x0c"
definition GZIP_FC_COMPRESS_RESUME_DHT_COUNT :: u32 where
  "GZIP_FC_COMPRESS_RESUME_DHT_COUNT = 0x0e"
definition GZIP_FC_DECOMPRESS :: u32 where "GZIP_FC_DECOMPRESS = 0x10"
definition GZIP_FC_DECOMPRESS_SINGLE_BLK_N_SUSPEND :: u32 where
  "GZIP_FC_DECOMPRESS_SINGLE_BLK_N_SUSPEND = 0x12"
definition GZIP_FC_DECOMPRESS_RESUME :: u32 where "GZIP_FC_DECOMPRESS_RESUME = 0x14"
definition GZIP_FC_DECOMPRESS_RESUME_SINGLE_BLK_N_SUSPEND :: u32 where
  "GZIP_FC_DECOMPRESS_RESUME_SINGLE_BLK_N_SUSPEND = 0x16"
definition GZIP_FC_WRAP :: u32 where "GZIP_FC_WRAP = 0x1e"

text \<open>The thirteen function codes of the header, in the order it defines them.\<close>

definition gzip_function_codes :: "u32 list" where
  "gzip_function_codes =
     [GZIP_FC_COMPRESS_FHT, GZIP_FC_COMPRESS_DHT,
      GZIP_FC_COMPRESS_FHT_COUNT, GZIP_FC_COMPRESS_DHT_COUNT,
      GZIP_FC_COMPRESS_RESUME_FHT, GZIP_FC_COMPRESS_RESUME_DHT,
      GZIP_FC_COMPRESS_RESUME_FHT_COUNT, GZIP_FC_COMPRESS_RESUME_DHT_COUNT,
      GZIP_FC_DECOMPRESS, GZIP_FC_DECOMPRESS_SINGLE_BLK_N_SUSPEND,
      GZIP_FC_DECOMPRESS_RESUME, GZIP_FC_DECOMPRESS_RESUME_SINGLE_BLK_N_SUSPEND,
      GZIP_FC_WRAP]"

definition fc_is_compress :: "u32 \<Rightarrow> u32" where
  "fc_is_compress fc = c_truth ((fc AND 0x10) = 0)"

text \<open>\<^verbatim>\<open>&&\<close> evaluates its right operand only when the left one is true.\<close>

definition fc_has_count :: "u32 \<Rightarrow> u32" where
  "fc_has_count fc =
     (if fc_is_compress fc = 0 then 0 else c_truth (c_truth ((fc AND 0x4) \<noteq> 0) \<noteq> 0))"

section \<open>Checksum seeds\<close>

definition INIT_CRC :: u32 where "INIT_CRC = 0"
definition INIT_ADLER :: u32 where "INIT_ADLER = 1"

text \<open>
  The two checksums the header's comments name (\<^verbatim>\<open>crc32(0L, Z_NULL, 0)\<close>,
  \<^verbatim>\<open>adler32(0L, Z_NULL, 0)\<close>), as their standards define them over a byte string:
  the CRC-32 of the gzip format (reflected polynomial \<open>0xEDB88320\<close>, register
  preset to all ones and complemented at the end) and the Adler-32 of the zlib format
  (two sums modulo 65521, the first starting at 1). They are the reference the seed
  constants are compared with.
\<close>

definition crc32_shift :: "u32 \<Rightarrow> u32" where
  "crc32_shift c = (if bit c 0 then drop_bit 1 c XOR 0xEDB88320 else drop_bit 1 c)"

definition crc32_byte :: "u32 \<Rightarrow> u8 \<Rightarrow> u32" where
  "crc32_byte c b = (crc32_shift ^^ 8) (c XOR ucast b)"

definition standard_crc32 :: "u8 list \<Rightarrow> u32" where
  "standard_crc32 bs = foldl crc32_byte 0xFFFFFFFF bs XOR 0xFFFFFFFF"

definition adler32_byte :: "nat \<times> nat \<Rightarrow> u8 \<Rightarrow> nat \<times> nat" where
  "adler32_byte s b =
     (case s of (s1, s2) \<Rightarrow>
        (let s1' = (s1 + unat b) mod 65521 in (s1', (s2 + s1') mod 65521)))"

definition standard_adler32 :: "u8 list \<Rightarrow> u32" where
  "standard_adler32 bs =
     (case foldl adler32_byte (1, 0) bs of (s1, s2) \<Rightarrow>
        push_bit 16 (word_of_nat s2) OR word_of_nat s1)"

section \<open>Timebase helpers\<close>

text \<open>
  \<^verbatim>\<open>nx_time_diff(uint64_t t1, uint64_t t2)\<close>: both branches are computed on
  \<^verbatim>\<open>uint64_t\<close>, so subtraction and addition wrap modulo \<open>2 ^ 64\<close>. The
  constant of the second branch is written in the source with fifteen hexadecimal
  digits \<^verbatim>\<open>F\<close>.
\<close>

definition nx_time_diff :: "u64 \<Rightarrow> u64 \<Rightarrow> u64" where
  "nx_time_diff t1 t2 =
     (if t2 \<ge> t1 then t2 - t1 else (0xFFFFFFFFFFFFFFF - t1) + t2)"

text \<open>
  \<^verbatim>\<open>nx_get_freq\<close> reads and writes the global \<^verbatim>\<open>tb_freq\<close> and may call
  \<^verbatim>\<open>__ppc_get_timebase_freq()\<close>. The state holds the global and the number of calls made
  to the platform function so far; the value the platform function would return is the
  first argument.
\<close>

record nx_globals =
  tb_freq :: u64
  timebase_freq_calls :: nat

definition nx_get_freq :: "u64 \<Rightarrow> nx_globals \<Rightarrow> u64 \<times> nx_globals" where
  "nx_get_freq ppc_freq g =
     (let g' = (if tb_freq g = 0
                then g\<lparr>tb_freq := ppc_freq,
                       timebase_freq_calls := Suc (timebase_freq_calls g)\<rparr>
                else g)
      in (tb_freq g', g'))"

text \<open>
  A sequence of calls, one for each element of the list, which gives the value the
  platform function would return at that call.
\<close>

fun nx_get_freq_calls :: "u64 list \<Rightarrow> nx_globals \<Rightarrow> u64 list \<times> nx_globals" where
  "nx_get_freq_calls [] g = ([], g)"
| "nx_get_freq_calls (f # fs) g =
     (case nx_get_freq f g of (r, g') \<Rightarrow>
        (case nx_get_freq_calls fs g' of (rs, g'') \<Rightarrow> (r # rs, g'')))"

section \<open>cudaCheck.h\<close>



datatype exn = runtime_error string

text \<open>
  A \<^verbatim>\<open>const char*\<close> that a CUDA lookup yields is either a string or the null pointer,
  \<open>None\<close>.
\<close>

type_synonym c_string = "string option"

text \<open>The decimal digits an output stream writes for an \<^verbatim>\<open>int\<close>.\<close>

fun dec_of_nat :: "nat \<Rightarrow> string" where
  "dec_of_nat n =
     (if n < 10 then [''0123456789'' ! n]
      else dec_of_nat (n div 10) @ [''0123456789'' ! (n mod 10)])"

declare dec_of_nat.simps [simp del]

definition dec_of_int :: "int \<Rightarrow> string" where
  "dec_of_int i = (if i < 0 then CHR ''-'' # dec_of_nat (nat (- i)) else dec_of_nat (nat i))"

text \<open>
  The number a string of decimal digits denotes, for stating what \<open>dec_of_nat\<close>
  writes.
\<close>

definition dec_value :: "string \<Rightarrow> nat" where
  "dec_value cs = foldl (\<lambda>a c. 10 * a + (of_char c - 48)) 0 cs"

text \<open>
  The \<^verbatim>\<open>std::ostringstream\<close> of \<^verbatim>\<open>printCudaErrorMessage\<close>: the characters written
  so far and the stream's \<^verbatim>\<open>badbit\<close>. Once \<^verbatim>\<open>badbit\<close> is set an insertion writes
  nothing. Inserting a null \<^verbatim>\<open>const char*\<close> sets \<^verbatim>\<open>badbit\<close> and writes nothing (the
  behaviour of libstdc++; the C++ standard requires the pointer not to be null).
\<close>

record ostringstream =
  written :: string
  badbit :: bool

datatype inserted = Chars c_string | Number int

definition insert_into :: "ostringstream \<Rightarrow> inserted \<Rightarrow> ostringstream" where
  "insert_into out x =
     (if badbit out then out
      else case x of
        Chars None \<Rightarrow> out\<lparr>badbit := True\<rparr>
      | Chars (Some cs) \<Rightarrow> out\<lparr>written := written out @ cs\<rparr>
      | Number i \<Rightarrow> out\<lparr>written := written out @ dec_of_int i\<rparr>)"

text \<open>
  \<^verbatim>\<open>printCudaErrorMessage\<close> inserts twelve items in this order and throws with
  \<^verbatim>\<open>out.str()\<close>. The file name and the checked expression are the string literals
  \<^verbatim>\<open>__FILE__\<close> and \<^verbatim>\<open>#ARG\<close> that the macros \<^verbatim>\<open>cudaCheck\<close> and \<^verbatim>\<open>CUDA_CHECK\<close> pass; the
  error name and description are the pointers the lookups gave.
\<close>

definition printCudaErrorMessage ::
  "string \<Rightarrow> int \<Rightarrow> string \<Rightarrow> c_string \<Rightarrow> c_string \<Rightarrow> exn + 'a" where
  "printCudaErrorMessage file line cmd error message =
     (let out = foldl insert_into \<lparr>written = [], badbit = False\<rparr>
        [Chars (Some ''\<newline>''),
         Chars (Some file), Chars (Some '', line ''), Number line, Chars (Some '':\<newline>''),
         Chars (Some ''cudaCheck(''), Chars (Some cmd), Chars (Some '');\<newline>''),
         Chars error, Chars (Some '': ''), Chars message, Chars (Some ''\<newline>'')]
      in Inl (runtime_error (written out)))"






section \<open>Properties\<close>

subsection \<open>Byte order\<close>

lemma bit_byte_down:
  fixes x :: "'a::len word"
  shows "bit (drop_bit d (x AND push_bit s (mask 8))) k \<longleftrightarrow>
    s \<le> d + k \<and> d + k < s + 8 \<and> bit x (d + k)"
  by (auto simp add: bit_simps dest: bit_imp_le_length)

lemma bit_byte_up:
  fixes x :: "'a::len word"
  shows "bit (push_bit u (x AND push_bit s (mask 8))) k \<longleftrightarrow>
    u + s \<le> k \<and> k < u + s + 8 \<and> k < LENGTH('a) \<and> bit x (k - u)"
  by (auto simp add: bit_simps dest: bit_imp_le_length)

lemma bit_byte_up0:
  fixes x :: "'a::len word"
  shows "bit (push_bit u (x AND mask 8)) k \<longleftrightarrow>
    u \<le> k \<and> k < u + 8 \<and> k < LENGTH('a) \<and> bit x (k - u)"
  by (auto simp add: bit_simps dest: bit_imp_le_length)

lemma byte_cases32 [case_names b0 b1 b2 b3 high]:
  fixes k :: nat
  obtains (b0) i where "i < 8" "k = i"
    | (b1) i where "i < 8" "k = 8 + i"
    | (b2) i where "i < 8" "k = 16 + i"
    | (b3) i where "i < 8" "k = 24 + i"
    | (high) "32 \<le> k"
proof -
  consider "k < 8" | "8 \<le> k \<and> k < 16" | "16 \<le> k \<and> k < 24" | "24 \<le> k \<and> k < 32" | "32 \<le> k"
    by linarith
  then show thesis
  proof cases
    case 1
    then show ?thesis using b0 [of k] by simp
  next
    case 2
    then have "k - 8 < 8" "k = 8 + (k - 8)" by linarith+
    then show ?thesis by (rule b1)
  next
    case 3
    then have "k - 16 < 8" "k = 16 + (k - 16)" by linarith+
    then show ?thesis by (rule b2)
  next
    case 4
    then have "k - 24 < 8" "k = 24 + (k - 24)" by linarith+
    then show ?thesis by (rule b3)
  next
    case 5
    then show ?thesis by (rule high)
  qed
qed

lemma byte_cases64 [case_names b0 b1 b2 b3 b4 b5 b6 b7 high]:
  fixes k :: nat
  obtains (b0) i where "i < 8" "k = i"
    | (b1) i where "i < 8" "k = 8 + i"
    | (b2) i where "i < 8" "k = 16 + i"
    | (b3) i where "i < 8" "k = 24 + i"
    | (b4) i where "i < 8" "k = 32 + i"
    | (b5) i where "i < 8" "k = 40 + i"
    | (b6) i where "i < 8" "k = 48 + i"
    | (b7) i where "i < 8" "k = 56 + i"
    | (high) "64 \<le> k"
proof -
  consider "k < 8" | "8 \<le> k \<and> k < 16" | "16 \<le> k \<and> k < 24" | "24 \<le> k \<and> k < 32" | "32 \<le> k \<and> k < 40" | "40 \<le> k \<and> k < 48" | "48 \<le> k \<and> k < 56" | "56 \<le> k \<and> k < 64" | "64 \<le> k"
    by linarith
  then show thesis
  proof cases
    case 1
    then show ?thesis using b0 [of k] by simp
  next
    case 2
    then have "k - 8 < 8" "k = 8 + (k - 8)" by linarith+
    then show ?thesis by (rule b1)
  next
    case 3
    then have "k - 16 < 8" "k = 16 + (k - 16)" by linarith+
    then show ?thesis by (rule b2)
  next
    case 4
    then have "k - 24 < 8" "k = 24 + (k - 24)" by linarith+
    then show ?thesis by (rule b3)
  next
    case 5
    then have "k - 32 < 8" "k = 32 + (k - 32)" by linarith+
    then show ?thesis by (rule b4)
  next
    case 6
    then have "k - 40 < 8" "k = 40 + (k - 40)" by linarith+
    then show ?thesis by (rule b5)
  next
    case 7
    then have "k - 48 < 8" "k = 48 + (k - 48)" by linarith+
    then show ?thesis by (rule b6)
  next
    case 8
    then have "k - 56 < 8" "k = 56 + (k - 56)" by linarith+
    then show ?thesis by (rule b7)
  next
    case 9
    then show ?thesis by (rule high)
  qed
qed

lemma byte_masks32:
  "(0xff000000 :: u32) = push_bit 24 (mask 8)" "(0x00ff0000 :: u32) = push_bit 16 (mask 8)"
  "(0x0000ff00 :: u32) = push_bit 8 (mask 8)" "(0x000000ff :: u32) = mask 8"
  by (simp_all add: mask_eq_exp_minus_1 push_bit_eq_mult)

lemma bswap_32_alt:
  "bswap_32 x =
     drop_bit 24 (x AND push_bit 24 (mask 8)) OR drop_bit 8 (x AND push_bit 16 (mask 8)) OR
     push_bit 8 (x AND push_bit 8 (mask 8)) OR push_bit 24 (x AND mask 8)"
  unfolding bswap_32_def byte_masks32 by (rule refl)

lemma bit_bswap_32:
  "bit (bswap_32 x) k \<longleftrightarrow>
     (k < 8 \<and> bit x (24 + k)) \<or> (8 \<le> k \<and> k < 16 \<and> bit x (8 + k)) \<or>
     (16 \<le> k \<and> k < 24 \<and> bit x (k - 8)) \<or> (24 \<le> k \<and> k < 32 \<and> bit x (k - 24))"
  by (cases k rule: byte_cases32;
      simp only: bswap_32_alt bit_or_iff bit_byte_down bit_byte_up bit_byte_up0; simp)

lemma bswap_32_involution: "bswap_32 (bswap_32 x) = x"
proof (rule bit_word_eqI)
  fix k :: nat
  assume "k < LENGTH(32)"
  then show "bit (bswap_32 (bswap_32 x)) k \<longleftrightarrow> bit x k"
    by (cases k rule: byte_cases32) (simp_all add: bit_bswap_32)
qed

lemma byte_masks64:
  "(0xff00000000000000 :: u64) = push_bit 56 (mask 8)"
  "(0x00ff000000000000 :: u64) = push_bit 48 (mask 8)"
  "(0x0000ff0000000000 :: u64) = push_bit 40 (mask 8)"
  "(0x000000ff00000000 :: u64) = push_bit 32 (mask 8)"
  "(0x00000000ff000000 :: u64) = push_bit 24 (mask 8)"
  "(0x0000000000ff0000 :: u64) = push_bit 16 (mask 8)"
  "(0x000000000000ff00 :: u64) = push_bit 8 (mask 8)"
  "(0x00000000000000ff :: u64) = mask 8"
  by (simp_all add: mask_eq_exp_minus_1 push_bit_eq_mult)

lemma bswap_64_alt:
  "bswap_64 x =
     drop_bit 56 (x AND push_bit 56 (mask 8)) OR drop_bit 40 (x AND push_bit 48 (mask 8)) OR
     drop_bit 24 (x AND push_bit 40 (mask 8)) OR drop_bit 8 (x AND push_bit 32 (mask 8)) OR
     push_bit 8 (x AND push_bit 24 (mask 8)) OR push_bit 24 (x AND push_bit 16 (mask 8)) OR
     push_bit 40 (x AND push_bit 8 (mask 8)) OR push_bit 56 (x AND mask 8)"
  unfolding bswap_64_def byte_masks64 by (rule refl)

lemma bit_bswap_64:
  "bit (bswap_64 x) k \<longleftrightarrow>
     (k < 8 \<and> bit x (56 + k)) \<or> (8 \<le> k \<and> k < 16 \<and> bit x (40 + k)) \<or>
     (16 \<le> k \<and> k < 24 \<and> bit x (24 + k)) \<or> (24 \<le> k \<and> k < 32 \<and> bit x (8 + k)) \<or>
     (32 \<le> k \<and> k < 40 \<and> bit x (k - 8)) \<or> (40 \<le> k \<and> k < 48 \<and> bit x (k - 24)) \<or>
     (48 \<le> k \<and> k < 56 \<and> bit x (k - 40)) \<or> (56 \<le> k \<and> k < 64 \<and> bit x (k - 56))"
  by (cases k rule: byte_cases64;
      simp only: bswap_64_alt bit_or_iff bit_byte_down bit_byte_up bit_byte_up0; simp)

lemma bswap_64_involution: "bswap_64 (bswap_64 x) = x"
proof (rule bit_word_eqI)
  fix k :: nat
  assume "k < LENGTH(64)"
  then show "bit (bswap_64 (bswap_64 x)) k \<longleftrightarrow> bit x k"
    by (cases k rule: byte_cases64) (simp_all add: bit_bswap_64)
qed

lemma be32toh_htobe32: "be32toh h (htobe32 h x) = x"
  by (cases h) (simp_all add: be32toh_def htobe32_def bswap_32_involution)

lemma htobe32_be32toh: "htobe32 h (be32toh h x) = x"
  by (cases h) (simp_all add: be32toh_def htobe32_def bswap_32_involution)

lemma be64toh_htobe64: "be64toh h (htobe64 h x) = x"
  by (cases h) (simp_all add: be64toh_def htobe64_def bswap_64_involution)

lemma bit_byte32: "bit (byte32 j x) k \<longleftrightarrow> k < 8 \<and> bit x (8 * j + k)"
  by (auto simp add: byte32_def bit_simps)

lemma bit_byte64: "bit (byte64 j x) k \<longleftrightarrow> k < 8 \<and> bit x (8 * j + k)"
  by (auto simp add: byte64_def bit_simps)

lemma byte32_bswap_32:
  "byte32 0 (bswap_32 x) = byte32 3 x" "byte32 1 (bswap_32 x) = byte32 2 x"
  "byte32 2 (bswap_32 x) = byte32 1 x" "byte32 3 (bswap_32 x) = byte32 0 x"
  by (rule bit_word_eqI; simp add: bit_byte32 bit_bswap_32; fail)+

lemma byte64_bswap_64:
  "byte64 0 (bswap_64 x) = byte64 7 x" "byte64 1 (bswap_64 x) = byte64 6 x"
  "byte64 2 (bswap_64 x) = byte64 5 x" "byte64 3 (bswap_64 x) = byte64 4 x"
  "byte64 4 (bswap_64 x) = byte64 3 x" "byte64 5 (bswap_64 x) = byte64 2 x"
  "byte64 6 (bswap_64 x) = byte64 1 x" "byte64 7 (bswap_64 x) = byte64 0 x"
  by (rule bit_word_eqI; simp add: bit_byte64 bit_bswap_64; fail)+

lemma store32_htobe32: "store32 h (htobe32 h x) = be_bytes32 x"
  by (cases h)
    (simp_all only: store32_def htobe32_def endian.case le_bytes32_def be_bytes32_def
      byte32_bswap_32)

lemma store64_htobe64: "store64 h (htobe64 h x) = be_bytes64 x"
  by (cases h)
    (simp_all only: store64_def htobe64_def endian.case le_bytes64_def be_bytes64_def
      byte64_bswap_64)

lemma bit_be_word32:
  "bit (be_word32 (a, b, c, d)) k \<longleftrightarrow>
     (k < 8 \<and> bit d k) \<or> (8 \<le> k \<and> k < 16 \<and> bit c (k - 8)) \<or>
     (16 \<le> k \<and> k < 24 \<and> bit b (k - 16)) \<or> (24 \<le> k \<and> k < 32 \<and> bit a (k - 24))"
  by (cases k rule: byte_cases32)
    (auto simp add: be_word32_def bit_simps dest: bit_imp_le_length)

lemma bit_le_word32:
  "bit (le_word32 (a, b, c, d)) k \<longleftrightarrow>
     (k < 8 \<and> bit a k) \<or> (8 \<le> k \<and> k < 16 \<and> bit b (k - 8)) \<or>
     (16 \<le> k \<and> k < 24 \<and> bit c (k - 16)) \<or> (24 \<le> k \<and> k < 32 \<and> bit d (k - 24))"
  by (cases k rule: byte_cases32)
    (auto simp add: le_word32_def bit_simps dest: bit_imp_le_length)

lemma bswap_32_le_word32: "bswap_32 (le_word32 m) = be_word32 m"
proof (cases m)
  case (fields a b c d)
  show ?thesis
    unfolding fields
  proof (rule bit_word_eqI)
    fix k :: nat
    assume "k < LENGTH(32)"
    then show "bit (bswap_32 (le_word32 (a, b, c, d))) k \<longleftrightarrow> bit (be_word32 (a, b, c, d)) k"
      by (cases k rule: byte_cases32)
        (simp_all add: bit_bswap_32 bit_le_word32 bit_be_word32)
  qed
qed

lemma be32toh_load32: "be32toh h (load32 h m) = be_word32 m"
  by (cases h) (simp_all add: be32toh_def load32_def bswap_32_le_word32)

lemma be_word32_be_bytes32: "be_word32 (be_bytes32 x) = x"
proof (rule bit_word_eqI)
  fix k :: nat
  assume "k < LENGTH(32)"
  then show "bit (be_word32 (be_bytes32 x)) k \<longleftrightarrow> bit x k"
    unfolding be_bytes32_def
    by (cases k rule: byte_cases32) (simp_all add: bit_be_word32 bit_byte32)
qed

subsection \<open>Field accessors\<close>

lemma size_mask_eq: "0 \<le> w \<Longrightarrow> w < 32 \<Longrightarrow> size_mask w = Some (mask (nat w))"
  by (simp add: size_mask_def shl32_def mask_eq_exp_minus_1)

lemma size_mask_32: "size_mask 32 = None"
  by (simp add: size_mask_def shl32_def)

lemma shl32_field: "0 \<le> off \<Longrightarrow> off \<le> 31 \<Longrightarrow> shl32 x (31 - off) = Some (push_bit (field_low off) x)"
  by (simp add: shl32_def field_low_def)

lemma shr32_field: "0 \<le> off \<Longrightarrow> off \<le> 31 \<Longrightarrow> shr32 x (31 - off) = Some (drop_bit (field_low off) x)"
  by (simp add: shr32_def field_low_def)

lemma getnn_eq:
  "0 \<le> w \<Longrightarrow> w < 32 \<Longrightarrow> 0 \<le> off \<Longrightarrow> off \<le> 31 \<Longrightarrow>
     getnn h reg off w = Some (drop_bit (field_low off) (be32toh h reg) AND mask (nat w))"
  by (simp add: getnn_def size_mask_eq shr32_field)

lemma unget32_eq:
  "0 \<le> w \<Longrightarrow> w < 32 \<Longrightarrow> 0 \<le> off \<Longrightarrow> off \<le> 31 \<Longrightarrow>
     unget32 h reg off w =
       Some (get32 h reg AND NOT (push_bit (field_low off) (mask (nat w))))"
  by (simp add: unget32_def size_mask_eq shl32_field)

lemma putnn_eq:
  "0 \<le> w \<Longrightarrow> w < 32 \<Longrightarrow> 0 \<le> off \<Longrightarrow> off \<le> 31 \<Longrightarrow>
     putnn h reg off w v =
       Some (htobe32 h
         (get32 h reg AND NOT (push_bit (field_low off) (mask (nat w))) OR
          push_bit (field_low off) (v AND mask (nat w))))"
  by (simp add: putnn_def unget32_eq size_mask_eq shl32_field)

lemma field_fits:
  "1 \<le> w \<Longrightarrow> 0 \<le> off \<Longrightarrow> off \<le> 31 \<Longrightarrow> w \<le> off + 1 \<Longrightarrow> field_low off + nat w \<le> 32"
  by (simp add: field_low_def)

lemma bit_field_cleared:
  fixes g :: u32
  shows "bit (g AND NOT (push_bit s (mask n))) k \<longleftrightarrow> bit g k \<and> \<not> (s \<le> k \<and> k < s + n)"
  by (auto simp add: bit_simps dest: bit_imp_le_length)

lemma bit_field_written:
  fixes g v :: u32
  assumes "s + n \<le> 32"
  shows "bit (g AND NOT (push_bit s (mask n)) OR push_bit s (v AND mask n)) k \<longleftrightarrow>
    (if s \<le> k \<and> k < s + n then bit v (k - s) else bit g k)"
  using assms by (auto simp add: bit_simps dest: bit_imp_le_length)

lemma field_read_back:
  fixes g v :: u32
  assumes "s + n \<le> 32"
  shows "drop_bit s (g AND NOT (push_bit s (mask n)) OR push_bit s (v AND mask n)) AND mask n =
    take_bit n v"
proof (rule bit_word_eqI)
  fix k :: nat
  assume "k < LENGTH(32)"
  show "bit (drop_bit s (g AND NOT (push_bit s (mask n)) OR push_bit s (v AND mask n)) AND mask n) k
      \<longleftrightarrow> bit (take_bit n v) k"
    using \<open>k < LENGTH(32)\<close> assms
    by (simp only: bit_and_iff bit_drop_bit_eq bit_field_written [OF assms])
      (auto simp add: bit_simps)
qed

lemma filter_span:
  assumes "s + n \<le> m"
  shows "filter (\<lambda>k. s \<le> k \<and> k < s + n) [0..<m] = [s..<s + n]"
proof -
  let ?P = "\<lambda>k. s \<le> k \<and> k < s + n"
  have a: "[0..<s + n] = [0..<s] @ [s..<s + n]"
    by (rule upt_add_eq_append) simp
  have b: "[0..<s + n + (m - (s + n))] = [0..<s + n] @ [s + n..<s + n + (m - (s + n))]"
    by (rule upt_add_eq_append) simp
  have c: "s + n + (m - (s + n)) = m"
    using assms by simp
  have "[0..<m] = [0..<s + n] @ [s + n..<m]"
    using b unfolding c .
  then have parts: "[0..<m] = ([0..<s] @ [s..<s + n]) @ [s + n..<m]"
    by (simp only: a)
  have lo: "filter ?P [0..<s] = []"
    by (simp add: filter_empty_conv)
  have mid: "filter ?P [s..<s + n] = [s..<s + n]"
    by (simp add: filter_id_conv)
  have hi: "filter ?P [s + n..<m] = []"
    by (simp add: filter_empty_conv)
  show ?thesis
    unfolding parts filter_append lo mid hi by simp
qed

lemma cleared_bits_field:
  assumes "s + n \<le> 32"
  shows "cleared_bits g (g AND NOT (push_bit s (mask n))) = filter (bit g) [s..<s + n]"
proof -
  have "cleared_bits g (g AND NOT (push_bit s (mask n))) =
      filter (\<lambda>k. bit g k \<and> (s \<le> k \<and> k < s + n)) [0..<32]"
    unfolding cleared_bits_def by (rule filter_cong) (auto simp add: bit_field_cleared)
  also have "\<dots> = filter (bit g) (filter (\<lambda>k. s \<le> k \<and> k < s + n) [0..<32])"
    by (simp add: conj_commute)
  also have "\<dots> = filter (bit g) [s..<s + n]"
    using assms by (simp only: filter_span)
  finally show ?thesis .
qed

lemma filter_bit_all_ones:
  assumes "s + n \<le> 32"
  shows "filter (bit (- 1 :: u32)) [s..<s + n] = [s..<s + n]"
  using assms by (simp add: filter_id_conv)

text \<open>
  Every field the header declares has a width between 1 and 31 and lies inside its
  word: its width is at most \<^verbatim>\<open>REG_offset\<close> + 1. For twelve of them, those at offset 31
  among them, offset plus width exceeds 32.
\<close>

lemma nx_fields_fit:
  "list_all (\<lambda>(name, off, w). 1 \<le> w \<and> w \<le> 31 \<and> 0 \<le> off \<and> off \<le> 31 \<and> w \<le> off + 1)
     nx_fields"
  by (simp add: nx_fields_def)

lemma nx_fields_beyond_32:
  "map fst (filter (\<lambda>(name, off, w). \<not> off + w \<le> 32) nx_fields) =
     [''csb_ce'', ''ccb_cm'', ''send_wc_id'', ''recv_wc_id'', ''nxsf_fs'',
      ''in_dhtlen'', ''in_subc'', ''in_rembytecnt'', ''out_subc'', ''out_rembytecnt'',
      ''out_dhtlen'', ''gzip_fc'']"
  by (simp add: nx_fields_def)

text \<open>
  C1 (as the code has it). For every width \<open>w\<close> in \<open>[1, 31]\<close> and every offset
  \<open>off\<close> in \<open>[0, 31]\<close> with \<open>w \<le> off + 1\<close>, that is, for every field that lies inside
  the word when its lowest bit is bit \<open>31 - off\<close>; for every host byte order, every
  stored word and every value \<open>v\<close>: \<^verbatim>\<open>putnn\<close> is defined, and \<^verbatim>\<open>getnn\<close> of the
  word it stores yields \<open>v mod 2 ^ w\<close>. The value \<open>v\<close> is the macro argument at 32
  bits; a wider argument contributes only its low 32 bits, since the result passes
  through \<^verbatim>\<open>htobe32\<close>.
\<close>

theorem putnn_getnn_roundtrip:
  assumes "1 \<le> w" and "w \<le> 31" and "0 \<le> off" and "off \<le> 31" and "w \<le> off + 1"
  shows "\<exists>r. putnn h reg off w v = Some r \<and>
    getnn h r off w = Some (take_bit (nat w) v) \<and>
    unat (take_bit (nat w) v) = unat v mod 2 ^ nat w"
proof -
  let ?s = "field_low off" and ?n = "nat w"
  let ?new = "get32 h reg AND NOT (push_bit ?s (mask ?n)) OR push_bit ?s (v AND mask ?n)"
  from assms have w: "0 \<le> w" "w < 32" by simp_all
  from assms have fits: "?s + ?n \<le> 32" by (simp add: field_fits)
  have put: "putnn h reg off w v = Some (htobe32 h ?new)"
    using w assms(3,4) by (rule putnn_eq)
  have "getnn h (htobe32 h ?new) off w =
      Some (drop_bit ?s (be32toh h (htobe32 h ?new)) AND mask ?n)"
    using w assms(3,4) by (rule getnn_eq)
  also have "be32toh h (htobe32 h ?new) = ?new"
    by (rule be32toh_htobe32)
  also have "drop_bit ?s ?new AND mask ?n = take_bit ?n v"
    using fits by (rule field_read_back)
  finally have get: "getnn h (htobe32 h ?new) off w = Some (take_bit ?n v)" .
  have "unat (take_bit ?n v) = take_bit ?n (unat v)"
    by (rule unsigned_take_bit_eq)
  also have "\<dots> = unat v mod 2 ^ ?n"
    by (rule take_bit_eq_mod)
  finally have "unat (take_bit ?n v) = unat v mod 2 ^ ?n" .
  with put get show ?thesis by blast
qed

text \<open>
  The field \<^verbatim>\<open>csb_cc\<close> (offset 23, width 8) on a little-endian host.
\<close>

theorem putnn_getnn_roundtrip_witness:
  "(1 :: int) \<le> 8 \<and> (8 :: int) \<le> 31 \<and> (0 :: int) \<le> 23 \<and> (23 :: int) \<le> 31 \<and>
   (8 :: int) \<le> 23 + 1 \<and>
   (\<exists>r. putnn LittleEndian 0x12345678 23 8 0x1AB = Some r \<and>
      getnn LittleEndian r 23 8 = Some 0xAB \<and> unat (0xAB :: u32) = unat (0x1AB :: u32) mod 2 ^ 8)"
proof -
  have tb: "take_bit (nat 8) (0x1AB :: u32) = 0xAB"
    by (simp add: take_bit_eq_mod)
  have "\<exists>r. putnn LittleEndian 0x12345678 23 8 0x1AB = Some r \<and>
      getnn LittleEndian r 23 8 = Some (take_bit (nat 8) 0x1AB) \<and>
      unat (take_bit (nat 8) (0x1AB :: u32)) = unat (0x1AB :: u32) mod 2 ^ nat 8"
    by (rule putnn_getnn_roundtrip) simp_all
  then show ?thesis
    unfolding tb by simp
qed

text \<open>
  With the condition \<open>off + w \<le> 32\<close> in place of \<open>w \<le> off + 1\<close> the round trip
  fails: at offset 0 and width 2 the field would need bits 31 and 32, the shift by 31
  drops the upper bit of the value, and 2 is read back as 0. At width 32 the mask
  itself is undefined.
\<close>

theorem putnn_getnn_offset_counterexample:
  "(1 :: int) \<le> 2 \<and> (2 :: int) \<le> 32 \<and> (0 :: int) + 2 \<le> 32 \<and>
   putnn BigEndian 0 0 2 2 = Some 0 \<and>
   getnn BigEndian 0 0 2 = Some 0 \<and>
   getnn BigEndian 0 0 2 \<noteq> Some (take_bit 2 2) \<and>
   size_mask 32 = None"
  by (simp add: putnn_def unget32_def getnn_def get32_def size_mask_def shl32_def shr32_def
      htobe32_def be32toh_def take_bit_eq_mod)

lemma get32_all_ones: "get32 h (- 1) = - 1"
proof (cases h)
  case LittleEndian
  have "bswap_32 (- 1) = - 1"
    by (rule bit_word_eqI) (simp add: bit_bswap_32, linarith)
  with LittleEndian show ?thesis by (simp add: get32_def be32toh_def)
next
  case BigEndian
  then show ?thesis by (simp add: get32_def be32toh_def)
qed

text \<open>
  C2 (as the code has it). Under the same conditions on \<open>w\<close> and \<open>off\<close>:
  \<^verbatim>\<open>unget32\<close> yields the register value with exactly the bits of the field, bits
  \<open>31 - off\<close> up to \<open>31 - off + w - 1\<close>, set to 0 and every other bit as it was;
  \<^verbatim>\<open>putnn\<close> stores a word whose field bits are the low \<open>w\<close> bits of \<open>v\<close> and whose
  other bits are those of the register before. On a register of all ones the bits
  cleared are exactly those \<open>w\<close> positions.
\<close>

theorem putnn_frame:
  assumes "1 \<le> w" and "w \<le> 31" and "0 \<le> off" and "off \<le> 31" and "w \<le> off + 1"
  shows "\<exists>u r u1.
    unget32 h reg off w = Some u \<and>
    (\<forall>k. bit u k \<longleftrightarrow> bit (get32 h reg) k \<and> \<not> in_field off w k) \<and>
    cleared_bits (get32 h reg) u =
      filter (bit (get32 h reg)) [field_low off..<field_low off + nat w] \<and>
    putnn h reg off w v = Some r \<and>
    (\<forall>k. bit (get32 h r) k \<longleftrightarrow>
       (if in_field off w k then bit v (k - field_low off) else bit (get32 h reg) k)) \<and>
    unget32 h (- 1) off w = Some u1 \<and>
    cleared_bits (- 1) u1 = [field_low off..<field_low off + nat w] \<and>
    length (cleared_bits (- 1) u1) = nat w"
proof -
  let ?s = "field_low off" and ?n = "nat w"
  let ?g = "get32 h reg"
  let ?u = "?g AND NOT (push_bit ?s (mask ?n))"
  let ?new = "?u OR push_bit ?s (v AND mask ?n)"
  from assms have w: "0 \<le> w" "w < 32" by simp_all
  from assms have fits: "?s + ?n \<le> 32" by (simp add: field_fits)
  have unget: "unget32 h reg off w = Some ?u"
    using w assms(3,4) by (rule unget32_eq)
  have zeroed: "\<forall>k. bit ?u k \<longleftrightarrow> bit ?g k \<and> \<not> in_field off w k"
    by (simp only: bit_field_cleared in_field_def simp_thms)
  have cleared: "cleared_bits ?g ?u = filter (bit ?g) [?s..<?s + ?n]"
    using fits by (rule cleared_bits_field)
  have put: "putnn h reg off w v = Some (htobe32 h ?new)"
    using w assms(3,4) by (rule putnn_eq)
  have readback: "get32 h (htobe32 h ?new) = ?new"
    unfolding get32_def by (rule be32toh_htobe32)
  have written: "\<forall>k. bit (get32 h (htobe32 h ?new)) k \<longleftrightarrow>
      (if in_field off w k then bit v (k - ?s) else bit ?g k)"
    unfolding readback by (simp only: bit_field_written [OF fits] in_field_def simp_thms)
  let ?u1 = "- 1 AND NOT (push_bit ?s (mask ?n)) :: u32"
  have "unget32 h (- 1) off w = Some (get32 h (- 1) AND NOT (push_bit ?s (mask ?n)))"
    using w assms(3,4) by (rule unget32_eq)
  then have ones: "unget32 h (- 1) off w = Some ?u1"
    by (simp only: get32_all_ones)
  have "cleared_bits (- 1) (- 1 AND NOT (push_bit ?s (mask ?n))) =
      filter (bit (- 1 :: u32)) [?s..<?s + ?n]"
    using fits by (rule cleared_bits_field)
  also have "\<dots> = [?s..<?s + ?n]"
    using fits by (rule filter_bit_all_ones)
  finally have all: "cleared_bits (- 1) ?u1 = [?s..<?s + ?n]" .
  then have count: "length (cleared_bits (- 1) ?u1) = ?n"
    by simp
  from unget zeroed cleared put written ones all count show ?thesis
    by blast
qed

text \<open>
  The field \<^verbatim>\<open>csb_cc\<close> (offset 23, width 8) again.
\<close>

theorem putnn_frame_witness:
  "(1 :: int) \<le> 8 \<and> (8 :: int) \<le> 31 \<and> (0 :: int) \<le> 23 \<and> (23 :: int) \<le> 31 \<and>
   (8 :: int) \<le> 23 + 1 \<and>
   (\<exists>u r u1.
      unget32 BigEndian 0x12345678 23 8 = Some u \<and>
      (\<forall>k. bit u k \<longleftrightarrow> bit (get32 BigEndian 0x12345678) k \<and> \<not> in_field 23 8 k) \<and>
      cleared_bits (get32 BigEndian 0x12345678) u =
        filter (bit (get32 BigEndian 0x12345678)) [field_low 23..<field_low 23 + nat 8] \<and>
      putnn BigEndian 0x12345678 23 8 0x1AB = Some r \<and>
      (\<forall>k. bit (get32 BigEndian r) k \<longleftrightarrow>
         (if in_field 23 8 k then bit (0x1AB :: u32) (k - field_low 23)
          else bit (get32 BigEndian 0x12345678) k)) \<and>
      unget32 BigEndian (- 1) 23 8 = Some u1 \<and>
      cleared_bits (- 1) u1 = [field_low 23..<field_low 23 + nat 8] \<and>
      length (cleared_bits (- 1) u1) = nat 8)"
proof -
  have "\<exists>u r u1.
      unget32 BigEndian 0x12345678 23 8 = Some u \<and>
      (\<forall>k. bit u k \<longleftrightarrow> bit (get32 BigEndian 0x12345678) k \<and> \<not> in_field 23 8 k) \<and>
      cleared_bits (get32 BigEndian 0x12345678) u =
        filter (bit (get32 BigEndian 0x12345678)) [field_low 23..<field_low 23 + nat 8] \<and>
      putnn BigEndian 0x12345678 23 8 0x1AB = Some r \<and>
      (\<forall>k. bit (get32 BigEndian r) k \<longleftrightarrow>
         (if in_field 23 8 k then bit (0x1AB :: u32) (k - field_low 23)
          else bit (get32 BigEndian 0x12345678) k)) \<and>
      unget32 BigEndian (- 1) 23 8 = Some u1 \<and>
      cleared_bits (- 1) u1 = [field_low 23..<field_low 23 + nat 8] \<and>
      length (cleared_bits (- 1) u1) = nat 8"
    by (rule putnn_frame) simp_all
  then show ?thesis by simp
qed

lemma putnn_example:
  "unget32 BigEndian 0x12345678 23 8 = Some 0x12340078"
  "putnn BigEndian 0x12345678 23 8 0x1AB = Some 0x1234AB78"
  "putnn LittleEndian 0x12345678 23 8 0x1AB = Some 0x12AB5678"
  "getnn LittleEndian 0x12AB5678 23 8 = Some 0xAB"
  by (simp_all add: putnn_def unget32_def getnn_def get32_def size_mask_def shl32_def shr32_def
      htobe32_def be32toh_def bswap_32_def)

lemma cleared_bits_example: "cleared_bits 0xFFFFFFFF 0x7FFFFFFF = [31]"
  by code_simp

text \<open>
  At offset 0 and width 2, which \<open>off + w \<le> 32\<close> admits, \<^verbatim>\<open>unget32\<close> clears one bit
  of an all-ones register, bit 31, not two. At width 32 the mask, and with it
  \<^verbatim>\<open>unget32\<close>, is undefined.
\<close>

theorem putnn_frame_offset_counterexample:
  "(1 :: int) \<le> 2 \<and> (2 :: int) \<le> 32 \<and> (0 :: int) + 2 \<le> 32 \<and>
   unget32 BigEndian 0xFFFFFFFF 0 2 = Some 0x7FFFFFFF \<and>
   cleared_bits 0xFFFFFFFF 0x7FFFFFFF = [31] \<and>
   length (cleared_bits 0xFFFFFFFF 0x7FFFFFFF) \<noteq> nat 2 \<and>
   unget32 BigEndian 0xFFFFFFFF 0 32 = None"
  by (simp add: cleared_bits_example unget32_def get32_def size_mask_def shl32_def
      be32toh_def)

subsection \<open>Big-endian registers on either host\<close>

lemma pointer_forms:
  "getpnn = getnn" "getp32 = get32" "getp64 = get64" "ungetp32 = unget32"
  "putpnn = putnn" "putp32 = put32" "putp64 = put64"
  by (intro ext;
      simp add: getpnn_def getnn_def getp32_def get32_def getp64_def get64_def
        ungetp32_def unget32_def putpnn_def putnn_def putp32_def put32_def putp64_def put64_def)+

lemma be32toh_BigEndian: "be32toh BigEndian x = x"
  by (simp add: be32toh_def)

lemma htobe32_BigEndian: "htobe32 BigEndian x = x"
  by (simp add: htobe32_def)

lemma getnn_host: "getnn h reg off w = getnn BigEndian (be32toh h reg) off w"
  by (simp add: getnn_def be32toh_BigEndian)

lemma unget32_host: "unget32 h reg off w = unget32 BigEndian (be32toh h reg) off w"
  by (simp add: unget32_def get32_def be32toh_BigEndian)

lemma putnn_host:
  "putnn h reg off w x = map_option (htobe32 h) (putnn BigEndian (be32toh h reg) off w x)"
  unfolding putnn_def htobe32_BigEndian
  by (simp add: map_option_bind comp_def unget32_host [of h])

lemma getnn_memory: "getnn h (load32 h m) off w = getnn BigEndian (be_word32 m) off w"
  by (simp only: getnn_host [of h] be32toh_load32)

lemma putnn_memory:
  "map_option (store32 h) (putnn h (load32 h m) off w x) =
     map_option be_bytes32 (putnn BigEndian (be_word32 m) off w x)"
  by (simp only: putnn_host [of h] be32toh_load32 option.map_comp comp_def store32_htobe32)

text \<open>
  C3. On either host, \<^verbatim>\<open>put32\<close> and \<^verbatim>\<open>put64\<close> leave the big-endian bytes of the
  value in memory, and \<^verbatim>\<open>get32\<close> and \<^verbatim>\<open>get64\<close> read the value back. Every accessor
  goes through the conversion: \<^verbatim>\<open>get32\<close> and \<^verbatim>\<open>getnn\<close> of a register in memory
  depend only on its bytes read as a big-endian word, and the bytes \<^verbatim>\<open>putnn\<close> leaves
  in memory are the same on both hosts. The pointer forms (\<^verbatim>\<open>getpnn\<close>, \<^verbatim>\<open>getp32\<close>,
  \<^verbatim>\<open>getp64\<close>, \<^verbatim>\<open>putpnn\<close>, \<^verbatim>\<open>putp32\<close>, \<^verbatim>\<open>putp64\<close>) behave as the others.
\<close>

theorem accessors_big_endian:
  "store32 h (put32 h v) = be_bytes32 v \<and> store32 h (putp32 h v) = be_bytes32 v \<and>
   be_word32 (be_bytes32 v) = v \<and>
   get32 h (put32 h v) = v \<and> getp32 h (putp32 h v) = v \<and>
   store64 h (put64 h u) = be_bytes64 u \<and> store64 h (putp64 h u) = be_bytes64 u \<and>
   get64 h (put64 h u) = u \<and> getp64 h (putp64 h u) = u \<and>
   get32 h (load32 h m) = be_word32 m \<and> getp32 h (load32 h m) = be_word32 m \<and>
   getnn h (load32 h m) off w = getnn BigEndian (be_word32 m) off w \<and>
   getpnn h (load32 h m) off w = getnn BigEndian (be_word32 m) off w \<and>
   map_option (store32 h) (putnn h (load32 h m) off w x) =
     map_option be_bytes32 (putnn BigEndian (be_word32 m) off w x) \<and>
   map_option (store32 h) (putpnn h (load32 h m) off w x) =
     map_option be_bytes32 (putnn BigEndian (be_word32 m) off w x)"
  unfolding pointer_forms
  by (intro conjI)
    (simp_all only: put32_def get32_def put64_def get64_def store32_htobe32 store64_htobe64
      be32toh_htobe32 be64toh_htobe64 be32toh_load32 be_word32_be_bytes32 getnn_memory
      putnn_memory)

text \<open>
  For comparison: a plain assignment on a little-endian host leaves the bytes in the
  opposite order.
\<close>

lemma native_order_differs:
  "store32 LittleEndian 0x11223344 = (0x44, 0x33, 0x22, 0x11)"
  "store32 LittleEndian (put32 LittleEndian 0x11223344) = (0x11, 0x22, 0x33, 0x44)"
  "store32 BigEndian (put32 BigEndian 0x11223344) = (0x11, 0x22, 0x33, 0x44)"
  by (simp_all add: put32_def htobe32_def bswap_32_def be_bytes32_def store32_def
      le_bytes32_def byte32_def)

subsection \<open>Completion extension\<close>

lemmas csb_ce_flag_defs = CSB_CE_PARTIAL_def CSB_CE_TERMINATE_def CSB_CE_TPBC_VALID_def

lemma c_truth_nonzero: "(c_truth b \<noteq> 0) = b"
  by (simp add: c_truth_def)

lemma c_truth_zero: "(c_truth b = 0) = (\<not> b)"
  by (simp add: c_truth_def)

lemma c_lnot_nonzero: "(c_lnot x \<noteq> 0) = (x = 0)"
  by (simp add: c_lnot_def c_truth_def)

lemma c_lnot_zero: "(c_lnot x = 0) = (x \<noteq> 0)"
  by (simp add: c_lnot_def c_truth_def)

lemma csb_ce_termination_iff: "(csb_ce_termination X \<noteq> 0) = (X AND CSB_CE_TERMINATE \<noteq> 0)"
  by (simp add: csb_ce_termination_def c_lnot_nonzero c_lnot_zero)

lemma csb_ce_check_completion_iff:
  "(csb_ce_check_completion X \<noteq> 0) = (X AND CSB_CE_TERMINATE = 0)"
  by (simp add: csb_ce_check_completion_def csb_ce_termination_def c_lnot_nonzero c_lnot_zero)

lemma csb_ce_partial_completion_iff:
  "(csb_ce_partial_completion X \<noteq> 0) = (X AND CSB_CE_PARTIAL \<noteq> 0)"
  by (simp add: csb_ce_partial_completion_def c_lnot_nonzero c_lnot_zero)

lemma csb_ce_full_completion_iff:
  "(csb_ce_full_completion X \<noteq> 0) = (X AND CSB_CE_PARTIAL = 0)"
  by (simp add: csb_ce_full_completion_def csb_ce_partial_completion_def
      c_lnot_nonzero c_lnot_zero)

lemma csb_ce_tpbc_valid_iff: "(csb_ce_tpbc_valid X \<noteq> 0) = (X AND CSB_CE_TPBC_VALID \<noteq> 0)"
  by (simp add: csb_ce_tpbc_valid_def c_lnot_nonzero c_lnot_zero)

lemma csb_ce_exactly_one:
  "length (filter id
     [csb_ce_termination X \<noteq> 0,
      csb_ce_termination X = 0 \<and> csb_ce_partial_completion X \<noteq> 0,
      csb_ce_termination X = 0 \<and> csb_ce_full_completion X \<noteq> 0]) = 1"
proof (cases "csb_ce_termination X = 0")
  case True
  then show ?thesis
    by (cases "X AND CSB_CE_PARTIAL = 0")
      (simp_all add: csb_ce_partial_completion_iff csb_ce_full_completion_iff)
next
  case False
  then show ?thesis by simp
qed

text \<open>
  C4. For every completion-extension value \<open>X\<close> (in particular every 8-bit one):
  \<^verbatim>\<open>csb_ce_termination(X)\<close> is true exactly when the terminate flag \<open>0x2\<close> is set,
  \<^verbatim>\<open>csb_ce_partial_completion(X)\<close> exactly when the partial flag \<open>0x4\<close> is set,
  \<^verbatim>\<open>csb_ce_full_completion(X)\<close> exactly when it is clear, \<^verbatim>\<open>csb_ce_tpbc_valid(X)\<close>
  exactly when the flag \<open>0x1\<close> is set; and exactly one of the three outcomes
  terminated, not terminated and partial, not terminated and full holds.
\<close>

theorem csb_ce_classification:
  "(csb_ce_termination X \<noteq> 0) = (X AND 0x2 \<noteq> 0) \<and>
   (csb_ce_check_completion X \<noteq> 0) = (X AND 0x2 = 0) \<and>
   (csb_ce_partial_completion X \<noteq> 0) = (X AND 0x4 \<noteq> 0) \<and>
   (csb_ce_full_completion X \<noteq> 0) = (X AND 0x4 = 0) \<and>
   (csb_ce_tpbc_valid X \<noteq> 0) = (X AND 0x1 \<noteq> 0) \<and>
   length (filter id
     [csb_ce_termination X \<noteq> 0,
      csb_ce_termination X = 0 \<and> csb_ce_partial_completion X \<noteq> 0,
      csb_ce_termination X = 0 \<and> csb_ce_full_completion X \<noteq> 0]) = 1"
  using csb_ce_termination_iff [of X] csb_ce_check_completion_iff [of X]
    csb_ce_partial_completion_iff [of X] csb_ce_full_completion_iff [of X]
    csb_ce_tpbc_valid_iff [of X] csb_ce_exactly_one [of X]
  unfolding csb_ce_flag_defs by (intro conjI)

lemma csb_ce_cc64_zero: "csb_ce_cc64 X = 0"
  by (simp add: csb_ce_cc64_def c_truth_def csb_ce_flag_defs)

text \<open>
  C5. The macro \<^verbatim>\<open>csb_ce_cc64\<close> is meant to be true exactly when the partial and the
  terminate flag are both clear. As the header writes it, it evaluates to 0 for every
  \<open>X\<close>: at \<open>X = 0\<close> both flags are clear, the intended test is true, and the macro
  is false.
\<close>

theorem csb_ce_cc64_never_true:
  "csb_ce_cc64 X = 0 \<and> csb_ce_cc64 0 = 0 \<and>
   0 AND (CSB_CE_PARTIAL OR CSB_CE_TERMINATE) = 0 \<and> cc64_flags_clear 0 = 1"
  by (simp add: csb_ce_cc64_zero cc64_flags_clear_def c_truth_def)

subsection \<open>Checksum seeds\<close>

text \<open>
  C6. \<^verbatim>\<open>INIT_CRC\<close> is the CRC-32 of the empty input, which is 0; \<^verbatim>\<open>INIT_ADLER\<close> is
  the Adler-32 of the empty input, which is 1; the two seeds differ.
\<close>

theorem init_checksum_seeds:
  "INIT_CRC = standard_crc32 [] \<and> INIT_CRC = 0 \<and>
   INIT_ADLER = standard_adler32 [] \<and> INIT_ADLER = 1 \<and>
   INIT_CRC \<noteq> INIT_ADLER"
  by (simp add: INIT_CRC_def INIT_ADLER_def standard_crc32_def standard_adler32_def)

subsection \<open>Function codes\<close>

lemmas gzip_fc_defs =
  GZIP_FC_COMPRESS_FHT_def GZIP_FC_COMPRESS_DHT_def GZIP_FC_COMPRESS_FHT_COUNT_def
  GZIP_FC_COMPRESS_DHT_COUNT_def GZIP_FC_COMPRESS_RESUME_FHT_def
  GZIP_FC_COMPRESS_RESUME_DHT_def GZIP_FC_COMPRESS_RESUME_FHT_COUNT_def
  GZIP_FC_COMPRESS_RESUME_DHT_COUNT_def GZIP_FC_DECOMPRESS_def
  GZIP_FC_DECOMPRESS_SINGLE_BLK_N_SUSPEND_def GZIP_FC_DECOMPRESS_RESUME_def
  GZIP_FC_DECOMPRESS_RESUME_SINGLE_BLK_N_SUSPEND_def GZIP_FC_WRAP_def

lemma fc_has_count_table:
  "map fc_has_count gzip_function_codes = [0, 0, 1, 1, 0, 0, 1, 1, 0, 0, 0, 0, 0]"
  by (simp add: gzip_function_codes_def fc_has_count_def fc_is_compress_def c_truth_def
      gzip_fc_defs)

lemma fc_is_compress_table:
  "map fc_is_compress gzip_function_codes = [1, 1, 1, 1, 1, 1, 1, 1, 0, 0, 0, 0, 0]"
  by (simp add: gzip_function_codes_def fc_is_compress_def c_truth_def gzip_fc_defs)

text \<open>The byte-count limit bit of a function code does not change either test.\<close>

lemma fc_limit_bit:
  "fc_is_compress (fc OR GZIP_FC_LIMIT_MASK) = fc_is_compress fc"
  "fc_has_count (fc OR GZIP_FC_LIMIT_MASK) = fc_has_count fc"
  by (simp_all add: fc_has_count_def fc_is_compress_def GZIP_FC_LIMIT_MASK_def
      bit.conj_disj_distrib2)

lemma gzip_function_codes_distinct: "distinct gzip_function_codes"
  by (simp add: gzip_function_codes_def gzip_fc_defs)

text \<open>
  C7. Among the function codes the header defines, \<^verbatim>\<open>fc_has_count\<close> is true for
  exactly the four compression codes with symbol counting, and false for every other
  compression code, every decompression code and \<^verbatim>\<open>GZIP_FC_WRAP\<close>; no code with
  counting is a decompression or wrap code.
\<close>

theorem fc_has_count_exactly_count_codes:
  "filter (\<lambda>fc. fc_has_count fc \<noteq> 0) gzip_function_codes =
     [GZIP_FC_COMPRESS_FHT_COUNT, GZIP_FC_COMPRESS_DHT_COUNT,
      GZIP_FC_COMPRESS_RESUME_FHT_COUNT, GZIP_FC_COMPRESS_RESUME_DHT_COUNT] \<and>
   filter (\<lambda>fc. fc_has_count fc = 0) gzip_function_codes =
     [GZIP_FC_COMPRESS_FHT, GZIP_FC_COMPRESS_DHT,
      GZIP_FC_COMPRESS_RESUME_FHT, GZIP_FC_COMPRESS_RESUME_DHT,
      GZIP_FC_DECOMPRESS, GZIP_FC_DECOMPRESS_SINGLE_BLK_N_SUSPEND,
      GZIP_FC_DECOMPRESS_RESUME, GZIP_FC_DECOMPRESS_RESUME_SINGLE_BLK_N_SUSPEND,
      GZIP_FC_WRAP] \<and>
   filter (\<lambda>fc. fc_is_compress fc = 0) gzip_function_codes =
     [GZIP_FC_DECOMPRESS, GZIP_FC_DECOMPRESS_SINGLE_BLK_N_SUSPEND,
      GZIP_FC_DECOMPRESS_RESUME, GZIP_FC_DECOMPRESS_RESUME_SINGLE_BLK_N_SUSPEND,
      GZIP_FC_WRAP] \<and>
   filter (\<lambda>fc. fc_has_count fc \<noteq> 0 \<and> fc_is_compress fc = 0) gzip_function_codes = [] \<and>
   fc_has_count GZIP_FC_WRAP = 0 \<and>
   distinct gzip_function_codes"
  by (simp add: gzip_function_codes_def fc_has_count_def fc_is_compress_def c_truth_def
      gzip_fc_defs)

subsection \<open>Cached timebase frequency\<close>

lemma nx_get_freq_cached:
  "tb_freq g \<noteq> 0 \<Longrightarrow> nx_get_freq f g = (tb_freq g, g)"
  by (simp add: nx_get_freq_def)

lemma nx_get_freq_first:
  "tb_freq g = 0 \<Longrightarrow>
     nx_get_freq f g =
       (f, g\<lparr>tb_freq := f, timebase_freq_calls := Suc (timebase_freq_calls g)\<rparr>)"
  by (simp add: nx_get_freq_def)

lemma nx_get_freq_returns_global: "fst (nx_get_freq f g) = tb_freq (snd (nx_get_freq f g))"
  by (simp add: nx_get_freq_def Let_def)

lemma nx_get_freq_reads_iff:
  "(timebase_freq_calls (snd (nx_get_freq f g)) \<noteq> timebase_freq_calls g) = (tb_freq g = 0)"
  by (simp add: nx_get_freq_def Let_def)

lemma nx_get_freq_calls_cached:
  "tb_freq g \<noteq> 0 \<Longrightarrow> nx_get_freq_calls fs g = (replicate (length fs) (tb_freq g), g)"
  by (induction fs) (simp_all add: nx_get_freq_cached)

text \<open>
  C8. \<^verbatim>\<open>nx_get_freq\<close> calls the platform function exactly when \<^verbatim>\<open>tb_freq\<close> is 0, and
  then stores and returns what it read; when \<^verbatim>\<open>tb_freq\<close> is not 0 it returns
  \<^verbatim>\<open>tb_freq\<close> and leaves the state as it was. Hence after a call that returned a
  frequency other than 0, every later call returns that frequency and changes nothing,
  whatever the platform function would return then.
\<close>

theorem nx_get_freq_lazy_cache:
  "(tb_freq g \<noteq> 0 \<longrightarrow> nx_get_freq f g = (tb_freq g, g)) \<and>
   (tb_freq g = 0 \<longrightarrow>
      nx_get_freq f g =
        (f, g\<lparr>tb_freq := f, timebase_freq_calls := Suc (timebase_freq_calls g)\<rparr>)) \<and>
   (timebase_freq_calls (snd (nx_get_freq f g)) \<noteq> timebase_freq_calls g) = (tb_freq g = 0) \<and>
   (fst (nx_get_freq f g) \<noteq> 0 \<longrightarrow>
      nx_get_freq_calls fs (snd (nx_get_freq f g)) =
        (replicate (length fs) (fst (nx_get_freq f g)), snd (nx_get_freq f g)))"
proof (intro conjI impI)
  assume "tb_freq g \<noteq> 0"
  then show "nx_get_freq f g = (tb_freq g, g)" by (rule nx_get_freq_cached)
next
  assume "tb_freq g = 0"
  then show "nx_get_freq f g =
      (f, g\<lparr>tb_freq := f, timebase_freq_calls := Suc (timebase_freq_calls g)\<rparr>)"
    by (rule nx_get_freq_first)
next
  show "(timebase_freq_calls (snd (nx_get_freq f g)) \<noteq> timebase_freq_calls g) =
      (tb_freq g = 0)"
    by (rule nx_get_freq_reads_iff)
next
  assume "fst (nx_get_freq f g) \<noteq> 0"
  then have "tb_freq (snd (nx_get_freq f g)) \<noteq> 0"
    by (simp only: nx_get_freq_returns_global simp_thms)
  then have "nx_get_freq_calls fs (snd (nx_get_freq f g)) =
      (replicate (length fs) (tb_freq (snd (nx_get_freq f g))), snd (nx_get_freq f g))"
    by (rule nx_get_freq_calls_cached)
  then show "nx_get_freq_calls fs (snd (nx_get_freq f g)) =
      (replicate (length fs) (fst (nx_get_freq f g)), snd (nx_get_freq f g))"
    by (simp only: nx_get_freq_returns_global simp_thms)
qed

theorem nx_get_freq_lazy_cache_witness:
  "nx_get_freq 512000000 \<lparr>tb_freq = 0, timebase_freq_calls = 0\<rparr> =
     (512000000, \<lparr>tb_freq = 512000000, timebase_freq_calls = 1\<rparr>) \<and>
   nx_get_freq 7 \<lparr>tb_freq = 512000000, timebase_freq_calls = 1\<rparr> =
     (512000000, \<lparr>tb_freq = 512000000, timebase_freq_calls = 1\<rparr>) \<and>
   nx_get_freq_calls [7, 0, 9] (snd (nx_get_freq 512000000 \<lparr>tb_freq = 0, timebase_freq_calls = 0\<rparr>)) =
     ([512000000, 512000000, 512000000], \<lparr>tb_freq = 512000000, timebase_freq_calls = 1\<rparr>)"
proof -
  let ?g0 = "\<lparr>tb_freq = 0 :: u64, timebase_freq_calls = 0\<rparr>"
  let ?g1 = "\<lparr>tb_freq = 512000000 :: u64, timebase_freq_calls = 1\<rparr>"
  have z: "tb_freq ?g0 = 0" and nz: "tb_freq ?g1 \<noteq> 0" by simp_all
  from nx_get_freq_lazy_cache [of ?g0 512000000 "[7, 0, 9]"] z
  have a: "nx_get_freq 512000000 ?g0 =
      (512000000, ?g0\<lparr>tb_freq := 512000000, timebase_freq_calls := Suc (timebase_freq_calls ?g0)\<rparr>)"
    by blast
  then have a': "nx_get_freq 512000000 ?g0 = (512000000, ?g1)" by simp
  from nx_get_freq_lazy_cache [of ?g1 7 "[]"] nz
  have b: "nx_get_freq 7 ?g1 = (tb_freq ?g1, ?g1)" by blast
  then have b': "nx_get_freq 7 ?g1 = (512000000, ?g1)" by simp
  have "fst (nx_get_freq 512000000 ?g0) \<noteq> 0" by (simp add: a')
  with nx_get_freq_lazy_cache [of ?g0 512000000 "[7, 0, 9]"]
  have "nx_get_freq_calls [7, 0, 9] (snd (nx_get_freq 512000000 ?g0)) =
      (replicate (length [7, 0, 9 :: u64]) (fst (nx_get_freq 512000000 ?g0)),
       snd (nx_get_freq 512000000 ?g0))"
    by blast
  then have c: "nx_get_freq_calls [7, 0, 9] (snd (nx_get_freq 512000000 ?g0)) =
      ([512000000, 512000000, 512000000], ?g1)"
    by (simp add: a' numeral_3_eq_3)
  from a' b' c show ?thesis by (intro conjI)
qed

subsection \<open>CUDA result check\<close>


lemma digit_value:
  "n < 10 \<Longrightarrow> (of_char (''0123456789'' ! n) :: nat) - 48 = n"
proof -
  assume "n < 10"
  then consider "n = 0" | "n = 1" | "n = 2" | "n = 3" | "n = 4"
    | "n = 5" | "n = 6" | "n = 7" | "n = 8" | "n = 9"
    by atomize_elim arith
  then show ?thesis by cases simp_all
qed

lemma dec_value_snoc: "dec_value (cs @ [c]) = 10 * dec_value cs + (of_char c - 48)"
  by (simp add: dec_value_def)

lemma dec_value_dec_of_nat: "dec_value (dec_of_nat n) = n"
proof (induction n rule: dec_of_nat.induct)
  case (1 n)
  show ?case
  proof (cases "n < 10")
    case True
    then have "dec_of_nat n = [''0123456789'' ! n]"
      by (simp add: dec_of_nat.simps [of n])
    then have "dec_value (dec_of_nat n) = of_char (''0123456789'' ! n) - 48"
      by (simp add: dec_value_def)
    with True show ?thesis by (simp only: digit_value)
  next
    case False
    then have "dec_of_nat n = dec_of_nat (n div 10) @ [''0123456789'' ! (n mod 10)]"
      by (simp add: dec_of_nat.simps [of n])
    then have "dec_value (dec_of_nat n) =
        10 * dec_value (dec_of_nat (n div 10)) + (of_char (''0123456789'' ! (n mod 10)) - 48)"
      by (simp only: dec_value_snoc)
    also have "dec_value (dec_of_nat (n div 10)) = n div 10"
      using False by (rule "1.IH")
    also have "(of_char (''0123456789'' ! (n mod 10)) :: nat) - 48 = n mod 10"
      by (rule digit_value) simp
    finally show ?thesis by simp
  qed
qed

lemma dec_of_nat_digits: "set (dec_of_nat n) \<subseteq> set ''0123456789''"
proof (induction n rule: dec_of_nat.induct)
  case (1 n)
  have digit: "''0123456789'' ! k \<in> set ''0123456789''" if "k < 10" for k
    using that by (intro nth_mem) simp
  show ?case
  proof (cases "n < 10")
    case True
    then show ?thesis
      using digit [of n] by (simp only: dec_of_nat.simps [of n] if_True) simp
  next
    case False
    have "n mod 10 < 10" by simp
    then show ?thesis
      using "1.IH" [OF False] digit [of "n mod 10"] False
      by (simp only: dec_of_nat.simps [of n] if_False) simp
  qed
qed


lemma dec_of_int_nonneg:
  "0 \<le> i \<Longrightarrow> dec_value (dec_of_int i) = nat i \<and> set (dec_of_int i) \<subseteq> set ''0123456789''"
  using dec_of_nat_digits [of "nat i"] by (simp add: dec_of_int_def dec_value_dec_of_nat)

lemma dec_of_int_negative: "i < 0 \<Longrightarrow> dec_of_int i = CHR ''-'' # dec_of_int (- i)"
  by (simp add: dec_of_int_def)


lemma dec_of_int_neg: "dec_of_int (- 305) = ''-305''"
  by (simp add: dec_of_int_def dec_of_nat.simps)

lemma printCudaErrorMessage_strings:
  "(printCudaErrorMessage file line cmd (Some name) (Some descr) :: exn + 'a) =
     Inl (runtime_error
       (''\<newline>'' @ file @ '', line '' @ dec_of_int line @ '':\<newline>'' @
        ''cudaCheck('' @ cmd @ '');\<newline>'' @ name @ '': '' @ descr @ ''\<newline>''))"
  by (simp add: printCudaErrorMessage_def insert_into_def)

lemma printCudaErrorMessage_null_name:
  "(printCudaErrorMessage file line cmd None message :: exn + 'a) =
     Inl (runtime_error
       (''\<newline>'' @ file @ '', line '' @ dec_of_int line @ '':\<newline>'' @
        ''cudaCheck('' @ cmd @ '');\<newline>''))"
  by (simp add: printCudaErrorMessage_def insert_into_def)

lemma printCudaErrorMessage_null_description:
  "(printCudaErrorMessage file line cmd (Some name) None :: exn + 'a) =
     Inl (runtime_error
       (''\<newline>'' @ file @ '', line '' @ dec_of_int line @ '':\<newline>'' @
        ''cudaCheck('' @ cmd @ '');\<newline>'' @ name @ '': ''))"
  by (simp add: printCudaErrorMessage_def insert_into_def)

lemma printCudaErrorMessage_throws:
  "\<exists>msg. (printCudaErrorMessage file line cmd error message :: exn + 'a) =
     Inl (runtime_error msg) \<and>
     prefix (''\<newline>'' @ file @ '', line '' @ dec_of_int line @ '':\<newline>'' @
        ''cudaCheck('' @ cmd @ '');\<newline>'') msg"
proof (cases error)
  case None
  then show ?thesis
    by (simp only: printCudaErrorMessage_null_name) simp
next
  case name: (Some name)
  show ?thesis
  proof (cases message)
    case None
    have "prefix (''\<newline>'' @ file @ '', line '' @ dec_of_int line @ '':\<newline>'' @
        ''cudaCheck('' @ cmd @ '');\<newline>'')
      ((''\<newline>'' @ file @ '', line '' @ dec_of_int line @ '':\<newline>'' @
        ''cudaCheck('' @ cmd @ '');\<newline>'') @ name @ '': '')"
      by (rule prefixI) (rule refl)
    with name None show ?thesis
      by (simp only: printCudaErrorMessage_null_description) simp
  next
    case (Some descr)
    have "prefix (''\<newline>'' @ file @ '', line '' @ dec_of_int line @ '':\<newline>'' @
        ''cudaCheck('' @ cmd @ '');\<newline>'')
      ((''\<newline>'' @ file @ '', line '' @ dec_of_int line @ '':\<newline>'' @
        ''cudaCheck('' @ cmd @ '');\<newline>'') @ name @ '': '' @ descr @ ''\<newline>'')"
      by (rule prefixI) (rule refl)
    with name Some show ?thesis
      by (simp only: printCudaErrorMessage_strings) simp
  qed
qed














subsection \<open>Timebase difference\<close>

lemma nx_time_diff_forward: "t1 \<le> t2 \<Longrightarrow> nx_time_diff t1 t2 = t2 - t1"
  by (simp add: nx_time_diff_def)

lemma nx_time_diff_wrapped:
  "t2 < t1 \<Longrightarrow> nx_time_diff t1 t2 = (0xFFFFFFFFFFFFFFF - t1) + t2"
  by (simp add: nx_time_diff_def leD)

lemma nx_wrap_constant: "(0xFFFFFFFFFFFFFFF :: u64) = 2 ^ 60 - 1"
  by simp

lemma nx_wrap_constant_nonzero: "(0xFFFFFFFFFFFFFFF :: u64) \<noteq> 0"
  by simp

lemma nx_time_diff_wrapped_off:
  "t2 < t1 \<Longrightarrow> nx_time_diff t1 t2 = (t2 - t1) + (2 ^ 60 - 1)"
  by (simp add: nx_time_diff_def leD)

text \<open>
  C10. For all 64-bit timebase values \<open>t1\<close>, \<open>t2\<close>: when \<open>t2 \<ge> t1\<close> the function
  returns \<open>t2 - t1\<close>; when \<open>t2 < t1\<close> it returns \<open>(0xFFFFFFFFFFFFFFF - t1) + t2\<close> in
  arithmetic modulo \<open>2 ^ 64\<close>, where the constant is \<open>2 ^ 60 - 1\<close>, and this result
  is never the modular difference \<open>t2 - t1\<close> (it is off by \<open>2 ^ 60 - 1\<close>).
\<close>

theorem nx_time_diff_branches:
  "(t1 \<le> t2 \<longrightarrow> nx_time_diff t1 t2 = t2 - t1) \<and>
   (t2 < t1 \<longrightarrow>
      nx_time_diff t1 t2 = (0xFFFFFFFFFFFFFFF - t1) + t2 \<and>
      (0xFFFFFFFFFFFFFFF :: u64) = 2 ^ 60 - 1 \<and>
      nx_time_diff t1 t2 = (t2 - t1) + (2 ^ 60 - 1) \<and>
      nx_time_diff t1 t2 \<noteq> t2 - t1)"
proof (intro conjI impI)
  assume "t1 \<le> t2"
  then show "nx_time_diff t1 t2 = t2 - t1" by (rule nx_time_diff_forward)
next
  assume lt: "t2 < t1"
  show "nx_time_diff t1 t2 = (0xFFFFFFFFFFFFFFF - t1) + t2"
    using lt by (rule nx_time_diff_wrapped)
  show "(0xFFFFFFFFFFFFFFF :: u64) = 2 ^ 60 - 1" by (rule nx_wrap_constant)
  show off: "nx_time_diff t1 t2 = (t2 - t1) + (2 ^ 60 - 1)"
    using lt by (rule nx_time_diff_wrapped_off)
  show "nx_time_diff t1 t2 \<noteq> t2 - t1"
  proof
    assume eq: "nx_time_diff t1 t2 = t2 - t1"
    from off [symmetric] eq have "t2 - t1 + (2 ^ 60 - 1) = t2 - t1" by (rule trans)
    then have "(2 ^ 60 - 1 :: u64) = 0" by (simp only: add_cancel_left_right)
    then show False by simp
  qed
qed

theorem nx_time_diff_branches_witness:
  "(5 :: u64) \<le> 12 \<and> nx_time_diff 5 12 = 7 \<and>
   (5 :: u64) < 12 \<and> nx_time_diff 12 5 = 0xFFFFFFFFFFFFFF8 \<and>
   nx_time_diff 12 5 \<noteq> 5 - 12"
proof -
  have le: "(5 :: u64) \<le> 12" and lt: "(5 :: u64) < 12" by simp_all
  from nx_time_diff_branches [of 5 12] le have a: "nx_time_diff 5 12 = 12 - 5" by blast
  from nx_time_diff_branches [of 12 5] lt
  have b: "nx_time_diff 12 5 = (0xFFFFFFFFFFFFFFF - 12) + 5"
    and c: "nx_time_diff 12 5 \<noteq> 5 - 12" by blast+
  have a': "(12 - 5 :: u64) = 7"
    and b': "((0xFFFFFFFFFFFFFFF - 12) + 5 :: u64) = 0xFFFFFFFFFFFFFF8"
    by simp_all
  show ?thesis using le lt a b c a' b' by (simp only: simp_thms)
qed

end
